theory Spec2Isabelle
  imports Complex_Main "HOL-Library.Multiset"
begin

section \<open>Numbers\<close>

text \<open>
  A JavaScript number is an IEEE double: a finite value, a negative zero, an infinity or
  \<^verbatim>\<open>NaN\<close>. \<open>Finite 0\<close> is the positive zero; every double is a \<open>number\<close>.
\<close>

datatype number = Finite real | NegZero | PosInfinity | NegInfinity | NaN

fun realValue :: "number \<Rightarrow> real" where
  "realValue (Finite r) = r"
| "realValue other = 0"

text \<open>
  The comparison \<^verbatim>\<open>x < y\<close> of two numbers is exact: false as soon as one of them is
  \<^verbatim>\<open>NaN\<close>, the order of the extended reals otherwise (the two zeros are equal).
\<close>

fun js_lt :: "number \<Rightarrow> number \<Rightarrow> bool" where
  "js_lt NaN y = False"
| "js_lt x NaN = False"
| "js_lt PosInfinity y = False"
| "js_lt x NegInfinity = False"
| "js_lt NegInfinity y = True"
| "js_lt x PosInfinity = True"
| "js_lt x y = (realValue x < realValue y)"

text \<open>
  Arithmetic on doubles rounds, and the results of \<^verbatim>\<open>Math.sin\<close>, \<^verbatim>\<open>Math.cos\<close> and
  \<^verbatim>\<open>Math.atan2\<close> are left to the engine. Neither is code of the repository: the four
  operations, the functions of \<^verbatim>\<open>Math\<close> that \<^verbatim>\<open>App.tsx\<close> calls and the constant
  \<^verbatim>\<open>Math.PI\<close> are a parameter of the model, and nothing is assumed about them.
\<close>

record jsMath =
  js_add :: "number \<Rightarrow> number \<Rightarrow> number"
  js_sub :: "number \<Rightarrow> number \<Rightarrow> number"
  js_mul :: "number \<Rightarrow> number \<Rightarrow> number"
  js_div :: "number \<Rightarrow> number \<Rightarrow> number"
  Math_sin :: "number \<Rightarrow> number"
  Math_cos :: "number \<Rightarrow> number"
  Math_sqrt :: "number \<Rightarrow> number"
  Math_atan2 :: "number \<Rightarrow> number \<Rightarrow> number"
  Math_PI :: number

section \<open>Data model\<close>

text \<open>
  The interface \<^verbatim>\<open>MapMarker\<close>: \<^verbatim>\<open>id\<close>, \<^verbatim>\<open>latitude\<close>, \<^verbatim>\<open>longitude\<close>, the optional
  \<^verbatim>\<open>name\<close> and \<^verbatim>\<open>icon\<close>, and the open index signature \<^verbatim>\<open>[key: string]: any\<close>, kept
  as an association list \<open>attrs\<close>. The field \<^verbatim>\<open>id\<close> is written \<open>id'\<close>, since \<open>id\<close> is
  the identity function of HOL.
\<close>

record MapMarker =
  id' :: string
  latitude :: number
  longitude :: number
  name :: "string option"
  icon :: "string option"
  attrs :: "(string \<times> string) list"

text \<open>
  The five \<^verbatim>\<open>useState\<close> cells of \<^verbatim>\<open>App\<close>. A handler reads the cells of the render it
  was created in and queues new values; it is a function from the state before the event
  to the state after it.
\<close>

record AppState =
  markers :: "MapMarker list"
  selectedMarkers :: "MapMarker list"
  isDrawing :: bool
  optimizedRoute :: "MapMarker list option"
  startMarkerId :: "string option"

definition initialState :: AppState where
  "initialState =
     \<lparr>markers = [], selectedMarkers = [], isDrawing = False,
      optimizedRoute = None, startMarkerId = None\<rparr>"

section \<open>Distance\<close>

definition toRad :: "jsMath \<Rightarrow> number \<Rightarrow> number" where
  "toRad M v = js_div M (js_mul M v (Math_PI M)) (Finite 180)"

text \<open>The haversine argument \<^verbatim>\<open>a\<close> of \<^verbatim>\<open>getDistance\<close>.\<close>

definition haversineA :: "jsMath \<Rightarrow> MapMarker \<Rightarrow> MapMarker \<Rightarrow> number" where
  "haversineA M point1 point2 =
     (let lat1 = latitude point1; lon1 = longitude point1;
          lat2 = latitude point2; lon2 = longitude point2;
          dLat = toRad M (js_sub M lat2 lat1);
          dLon = toRad M (js_sub M lon2 lon1)
      in js_add M
           (js_mul M (Math_sin M (js_div M dLat (Finite 2)))
                     (Math_sin M (js_div M dLat (Finite 2))))
           (js_mul M
              (js_mul M
                 (js_mul M (Math_cos M (toRad M lat1)) (Math_cos M (toRad M lat2)))
                 (Math_sin M (js_div M dLon (Finite 2))))
              (Math_sin M (js_div M dLon (Finite 2)))))"

definition getDistance :: "jsMath \<Rightarrow> MapMarker \<Rightarrow> MapMarker \<Rightarrow> number" where
  "getDistance M point1 point2 =
     (let R = Finite 6371;
          a = haversineA M point1 point2;
          c = js_mul M (Finite 2)
                (Math_atan2 M (Math_sqrt M a) (Math_sqrt M (js_sub M (Finite 1) a)))
      in js_mul M R c)"

section \<open>Route optimizer\<close>

text \<open>
  \<^verbatim>\<open>Array.prototype.indexOf\<close>: the first index holding the element, \<open>-1\<close> when there is
  none. Markers are values here, so the comparison is by content where JavaScript compares
  object identity; the two agree on a pool whose markers are pairwise different.
\<close>

fun indexOf :: "'a list \<Rightarrow> 'a \<Rightarrow> int" where
  "indexOf [] x = - 1"
| "indexOf (y # ys) x =
     (if y = x then 0
      else (let i = indexOf ys x in if i < 0 then - 1 else i + 1))"

text \<open>
  \<^verbatim>\<open>xs.splice(start, 1)\<close>, returning the array left: a negative start counts from the
  end, a start past the end removes nothing.
\<close>

definition splice1 :: "'a list \<Rightarrow> int \<Rightarrow> 'a list" where
  "splice1 xs start =
     (let n = int (length xs);
          s = (if start < 0 then max (n + start) 0 else min start n)
      in take (nat s) xs @ drop (nat s + 1) xs)"

text \<open>
  The \<^verbatim>\<open>for\<close> loop of \<^verbatim>\<open>calculateOptimizedRoute\<close> over \<^verbatim>\<open>remainingMarkers[1..]\<close>,
  carrying \<^verbatim>\<open>nearestMarker\<close> and \<^verbatim>\<open>minDistance\<close>.
\<close>

fun scanNearest ::
  "jsMath \<Rightarrow> MapMarker \<Rightarrow> MapMarker list \<Rightarrow> MapMarker \<Rightarrow> number \<Rightarrow> MapMarker" where
  "scanNearest M currentPoint [] nearestMarker minDistance = nearestMarker"
| "scanNearest M currentPoint (m # ms) nearestMarker minDistance =
     (let distance = getDistance M currentPoint m
      in if js_lt distance minDistance then scanNearest M currentPoint ms m distance
         else scanNearest M currentPoint ms nearestMarker minDistance)"

text \<open>
  One pass of the \<^verbatim>\<open>while\<close> body on a non-empty pool \<open>r0 # rest\<close>: the new route and
  the new pool. The route is never empty: it starts as \<^verbatim>\<open>[startMarker]\<close> and only grows.
\<close>

definition whileBody ::
  "jsMath \<Rightarrow> MapMarker list \<Rightarrow> MapMarker \<Rightarrow> MapMarker list
     \<Rightarrow> MapMarker list \<times> MapMarker list" where
  "whileBody M route r0 rest =
     (let currentPoint = last route;
          nearestMarker = scanNearest M currentPoint rest r0 (getDistance M currentPoint r0)
      in (route @ [nearestMarker],
          splice1 (r0 # rest) (indexOf (r0 # rest) nearestMarker)))"

function routeLoop :: "jsMath \<Rightarrow> MapMarker list \<Rightarrow> MapMarker list \<Rightarrow> MapMarker list" where
  "routeLoop M route [] = route"
| "routeLoop M route (r0 # rest) =
     (case whileBody M route r0 rest of
        (route', remainingMarkers') \<Rightarrow> routeLoop M route' remainingMarkers')"
  by pat_completeness auto
termination
proof -
  have range: "- 1 \<le> indexOf xs y \<and> indexOf xs y < int (length xs)"
    for xs :: "MapMarker list" and y
    by (induction xs) (auto simp: Let_def)
  have shorter: "length (splice1 (r0 # rest) (indexOf (r0 # rest) y)) = length rest"
    for r0 y :: MapMarker and rest
    using range [of "r0 # rest" y] by (auto simp: splice1_def Let_def max_def min_def)
  show ?thesis
    by (relation "measure (\<lambda>(M, route, remainingMarkers). length remainingMarkers)")
      (auto simp: whileBody_def Let_def shorter simp del: indexOf.simps)
qed

definition calculateOptimizedRoute ::
  "jsMath \<Rightarrow> MapMarker list \<Rightarrow> string \<Rightarrow> MapMarker list option" where
  "calculateOptimizedRoute M ms startId =
     (case find (\<lambda>m. id' m = startId) ms of
        None \<Rightarrow> None
      | Some startMarker \<Rightarrow>
          Some (routeLoop M [startMarker] (filter (\<lambda>m. id' m \<noteq> startId) ms)))"

section \<open>Event handlers of the marker store\<close>

definition handleDataLoaded :: "MapMarker list \<Rightarrow> AppState \<Rightarrow> AppState" where
  "handleDataLoaded newMarkers s = s\<lparr>markers := newMarkers\<rparr>"

definition handleMarkersSelected :: "MapMarker list \<Rightarrow> AppState \<Rightarrow> AppState" where
  "handleMarkersSelected selected s = s\<lparr>selectedMarkers := selected, isDrawing := False\<rparr>"

definition handleToggleDrawing :: "AppState \<Rightarrow> AppState" where
  "handleToggleDrawing s =
     (let s1 = s\<lparr>isDrawing := \<not> isDrawing s\<rparr>
      in if \<not> isDrawing s
         then s1\<lparr>selectedMarkers := [], optimizedRoute := None, startMarkerId := None\<rparr>
         else s1)"

text \<open>
  The test \<^verbatim>\<open>if (startMarkerId)\<close> on a \<^verbatim>\<open>string | null\<close>: \<^verbatim>\<open>null\<close> and the empty string
  are falsy.
\<close>

definition truthy :: "string option \<Rightarrow> bool" where
  "truthy v = (case v of None \<Rightarrow> False | Some str \<Rightarrow> str \<noteq> [])"

definition handleOptimizeRoute :: "jsMath \<Rightarrow> string option \<Rightarrow> AppState \<Rightarrow> AppState" where
  "handleOptimizeRoute M newStartMarkerId s =
     (let s1 = s\<lparr>startMarkerId := newStartMarkerId\<rparr>
      in case newStartMarkerId of
           None \<Rightarrow> s1\<lparr>optimizedRoute := None\<rparr>
         | Some startId \<Rightarrow>
             if \<not> truthy (Some startId) then s1\<lparr>optimizedRoute := None\<rparr>
             else s1\<lparr>optimizedRoute := calculateOptimizedRoute M (selectedMarkers s) startId\<rparr>)"

definition handleDelete :: "AppState \<Rightarrow> AppState" where
  "handleDelete s =
     (let selectedIds = set (map id' (selectedMarkers s))
      in s\<lparr>markers := filter (\<lambda>m. id' m \<notin> selectedIds) (markers s),
           selectedMarkers := [],
           optimizedRoute := None,
           startMarkerId := None\<rparr>)"

text \<open>The callback of both \<^verbatim>\<open>map\<close> calls in \<^verbatim>\<open>handleMarkerMove\<close>.\<close>

definition moveTo :: "string \<Rightarrow> number \<Rightarrow> number \<Rightarrow> MapMarker \<Rightarrow> MapMarker" where
  "moveTo i lat lng marker =
     (if id' marker = i then marker\<lparr>latitude := lat, longitude := lng\<rparr> else marker)"

definition handleMarkerMove ::
  "jsMath \<Rightarrow> string \<Rightarrow> number \<Rightarrow> number \<Rightarrow> AppState \<Rightarrow> AppState" where
  "handleMarkerMove M i lat lng s =
     (let updatedMarkers = map (moveTo i lat lng) (markers s);
          s1 = s\<lparr>markers := updatedMarkers\<rparr>
      in if list_ex (\<lambda>m. id' m = i) (selectedMarkers s)
         then (let updatedSelected = map (moveTo i lat lng) (selectedMarkers s);
                   s2 = s1\<lparr>selectedMarkers := updatedSelected\<rparr>
               in case startMarkerId s of
                    None \<Rightarrow> s2
                  | Some startId \<Rightarrow>
                      if truthy (Some startId)
                      then s2\<lparr>optimizedRoute :=
                                calculateOptimizedRoute M updatedSelected startId\<rparr>
                      else s2)
         else s1)"

definition handleUpdateIcons :: "string \<Rightarrow> AppState \<Rightarrow> AppState" where
  "handleUpdateIcons iconUrl s =
     (let selectedIds = set (map id' (selectedMarkers s))
      in s\<lparr>markers :=
             map (\<lambda>marker. if id' marker \<in> selectedIds
                            then marker\<lparr>icon := Some iconUrl\<rparr> else marker)
               (markers s)\<rparr>)"

section \<open>Example data\<close>

text \<open>
  Closed statements need a value for the arithmetic. \<open>exactMath\<close> is the arithmetic
  without rounding on finite values, with \<^verbatim>\<open>NaN\<close> elsewhere: one instance of the
  parameter, not the arithmetic of doubles. The theorems below hold for every instance.
\<close>

definition atan2_exact :: "real \<Rightarrow> real \<Rightarrow> real" where
  "atan2_exact y x =
     (if 0 < x then arctan (y / x)
      else if x < 0 then (if 0 \<le> y then arctan (y / x) + pi else arctan (y / x) - pi)
      else if 0 < y then pi / 2
      else if y < 0 then - (pi / 2)
      else 0)"

fun onFinite :: "(real \<Rightarrow> number) \<Rightarrow> number \<Rightarrow> number" where
  "onFinite f (Finite x) = f x"
| "onFinite f other = NaN"

fun onFinite2 :: "(real \<Rightarrow> real \<Rightarrow> number) \<Rightarrow> number \<Rightarrow> number \<Rightarrow> number" where
  "onFinite2 f (Finite x) (Finite y) = f x y"
| "onFinite2 f a b = NaN"

definition exactMath :: jsMath where
  "exactMath =
     \<lparr>js_add = onFinite2 (\<lambda>x y. Finite (x + y)),
      js_sub = onFinite2 (\<lambda>x y. Finite (x - y)),
      js_mul = onFinite2 (\<lambda>x y. Finite (x * y)),
      js_div = onFinite2 (\<lambda>x y. if y = 0 then NaN else Finite (x / y)),
      Math_sin = onFinite (\<lambda>x. Finite (sin x)),
      Math_cos = onFinite (\<lambda>x. Finite (cos x)),
      Math_sqrt = onFinite (\<lambda>x. if x < 0 then NaN else Finite (sqrt x)),
      Math_atan2 = onFinite2 (\<lambda>y x. Finite (atan2_exact y x)),
      Math_PI = Finite pi\<rparr>"

text \<open>
  Three markers as the importer numbers them, on the equator at longitudes 0, 180 and 90.
\<close>

definition exampleA :: MapMarker where
  "exampleA = \<lparr>id' = ''marker-0'', latitude = Finite 0, longitude = Finite 0,
     name = Some ''Location 1'', icon = None, attrs = []\<rparr>"

definition exampleB :: MapMarker where
  "exampleB = \<lparr>id' = ''marker-1'', latitude = Finite 0, longitude = Finite 180,
     name = Some ''Location 2'', icon = None, attrs = []\<rparr>"

definition exampleC :: MapMarker where
  "exampleC = \<lparr>id' = ''marker-2'', latitude = Finite 0, longitude = Finite 90,
     name = Some ''Location 3'', icon = None, attrs = []\<rparr>"

lemmas example_defs = exampleA_def exampleB_def exampleC_def

text \<open>
  Three markers in range: a start at (-12, -179), its antipode at (12, 1) and a neighbour
  of the start at (-12, -178), about 109 km away.
\<close>

definition startMarker :: MapMarker where
  "startMarker = \<lparr>id' = ''marker-0'', latitude = Finite (- 12), longitude = Finite (- 179),
     name = Some ''Location 1'', icon = None, attrs = []\<rparr>"

definition antipodeMarker :: MapMarker where
  "antipodeMarker = \<lparr>id' = ''marker-1'', latitude = Finite 12, longitude = Finite 1,
     name = Some ''Location 2'', icon = None, attrs = []\<rparr>"

definition neighbourMarker :: MapMarker where
  "neighbourMarker = \<lparr>id' = ''marker-2'', latitude = Finite (- 12), longitude = Finite (- 178),
     name = Some ''Location 3'', icon = None, attrs = []\<rparr>"

lemmas antipode_defs = startMarker_def antipodeMarker_def neighbourMarker_def

text \<open>
  A state with a routed selection, the state after a further import into it, and a state
  whose only marker already carries an icon and is selected.
\<close>

definition routedState :: AppState where
  "routedState =
     \<lparr>markers = [exampleA, exampleB, exampleC],
      selectedMarkers = [exampleB, exampleC],
      isDrawing = False,
      optimizedRoute = Some [exampleC, exampleB],
      startMarkerId = Some ''marker-2''\<rparr>"

definition staleState :: AppState where
  "staleState = handleDataLoaded [exampleA] routedState"

definition taggedState :: AppState where
  "taggedState =
     \<lparr>markers = [exampleA\<lparr>icon := Some ''pin.png''\<rparr>],
      selectedMarkers = [exampleA\<lparr>icon := Some ''pin.png''\<rparr>],
      isDrawing = False,
      optimizedRoute = None,
      startMarkerId = None\<rparr>"

section \<open>The comparison and the scan\<close>

lemma js_lt_NaN [simp]: "js_lt x NaN = False"
  by (cases x) simp_all

lemma js_lt_Finite [simp]: "js_lt (Finite x) (Finite y) = (x < y)"
  by simp

text \<open>
  Once the distance carried by the scan is \<^verbatim>\<open>NaN\<close>, no comparison succeeds and the
  marker carried is returned, whatever the distances of the others.
\<close>

lemma scanNearest_NaN: "scanNearest M c ms n NaN = n"
  by (induction ms) simp_all

lemma scanNearest_in_pool: "scanNearest M c ms n d \<in> set (n # ms)"
  by (induction ms arbitrary: n d) (auto simp: Let_def)

lemma scanNearest_inv:
  assumes "\<forall>x\<in>set (seen @ ms). \<exists>d. getDistance M c x = Finite d"
    and "n \<in> set seen"
    and "\<forall>x\<in>set seen. realValue (getDistance M c n) \<le> realValue (getDistance M c x)"
    and "\<forall>x\<in>set (takeWhile (\<lambda>x. x \<noteq> n) seen).
           realValue (getDistance M c n) < realValue (getDistance M c x)"
  shows "scanNearest M c ms n (getDistance M c n) \<in> set (seen @ ms) \<and>
    (\<forall>x\<in>set (seen @ ms).
       realValue (getDistance M c (scanNearest M c ms n (getDistance M c n)))
         \<le> realValue (getDistance M c x)) \<and>
    (\<forall>x\<in>set (takeWhile (\<lambda>x. x \<noteq> scanNearest M c ms n (getDistance M c n)) (seen @ ms)).
       realValue (getDistance M c (scanNearest M c ms n (getDistance M c n)))
         < realValue (getDistance M c x))"
  using assms
proof (induction ms arbitrary: seen n)
  case Nil
  then show ?case by simp
next
  case (Cons m ms)
  have fin: "\<And>x. x \<in> set seen \<or> x = m \<Longrightarrow> \<exists>d. getDistance M c x = Finite d"
    using Cons.prems(1) by auto
  have lt: "js_lt (getDistance M c m) (getDistance M c n)
      = (realValue (getDistance M c m) < realValue (getDistance M c n))"
    using fin [of m] fin [of n] Cons.prems(2) by auto
  have all: "\<forall>x\<in>set ((seen @ [m]) @ ms). \<exists>d. getDistance M c x = Finite d"
    using Cons.prems(1) by simp
  show ?case
  proof (cases "js_lt (getDistance M c m) (getDistance M c n)")
    case True
    then have less: "realValue (getDistance M c m) < realValue (getDistance M c n)"
      using lt by simp
    have notin: "m \<notin> set seen"
      using Cons.prems(3) less by fastforce
    have "m \<in> set (seen @ [m])" by simp
    moreover have "\<forall>x\<in>set (seen @ [m]).
        realValue (getDistance M c m) \<le> realValue (getDistance M c x)"
      using Cons.prems(3) less by fastforce
    moreover have "takeWhile (\<lambda>x. x \<noteq> m) (seen @ [m]) = seen"
      using notin by (subst takeWhile_append2) auto
    then have "\<forall>x\<in>set (takeWhile (\<lambda>x. x \<noteq> m) (seen @ [m])).
        realValue (getDistance M c m) < realValue (getDistance M c x)"
      using Cons.prems(3) less by fastforce
    ultimately show ?thesis
      using Cons.IH [OF all, of m] True by simp
  next
    case False
    then have ge: "realValue (getDistance M c n) \<le> realValue (getDistance M c m)"
      using lt by simp
    have "n \<in> set (seen @ [m])" using Cons.prems(2) by simp
    moreover have "\<forall>x\<in>set (seen @ [m]).
        realValue (getDistance M c n) \<le> realValue (getDistance M c x)"
      using Cons.prems(3) ge by auto
    moreover have "\<forall>x\<in>set (takeWhile (\<lambda>x. x \<noteq> n) (seen @ [m])).
        realValue (getDistance M c n) < realValue (getDistance M c x)"
      using Cons.prems(2,4) by (simp add: takeWhile_append1)
    ultimately show ?thesis
      using Cons.IH [OF all, of n] False by simp
  qed
qed

text \<open>
  When every distance from the current point is finite, the scan returns the first pool
  member at the least computed distance.
\<close>

lemma scanNearest_first_minimum:
  assumes "\<forall>x\<in>set (r0 # rest). \<exists>d. getDistance M c x = Finite d"
  shows "scanNearest M c rest r0 (getDistance M c r0) \<in> set (r0 # rest) \<and>
    (\<forall>x\<in>set (r0 # rest).
       realValue (getDistance M c (scanNearest M c rest r0 (getDistance M c r0)))
         \<le> realValue (getDistance M c x)) \<and>
    (\<forall>x\<in>set (takeWhile (\<lambda>x. x \<noteq> scanNearest M c rest r0 (getDistance M c r0)) (r0 # rest)).
       realValue (getDistance M c (scanNearest M c rest r0 (getDistance M c r0)))
         < realValue (getDistance M c x))"
  using scanNearest_inv [of "[r0]" rest M c r0] assms by simp

section \<open>The nearest-neighbour loop\<close>

lemma indexOf_takeWhile:
  "x \<in> set xs \<Longrightarrow> indexOf xs x = int (length (takeWhile (\<lambda>y. y \<noteq> x) xs))"
  by (induction xs) (auto simp: Let_def)

lemma take_drop_takeWhile_remove1:
  "x \<in> set xs \<Longrightarrow>
   take (length (takeWhile (\<lambda>y. y \<noteq> x) xs)) xs
     @ drop (Suc (length (takeWhile (\<lambda>y. y \<noteq> x) xs))) xs = remove1 x xs"
  by (induction xs) auto

lemma splice1_indexOf:
  assumes "x \<in> set xs"
  shows "splice1 xs (indexOf xs x) = remove1 x xs"
proof -
  have "length (takeWhile (\<lambda>y. y \<noteq> x) xs) \<le> length xs"
    by (rule length_takeWhile_le)
  then show ?thesis
    using assms take_drop_takeWhile_remove1 [OF assms]
    by (simp add: splice1_def indexOf_takeWhile Let_def min_def)
qed

lemma whileBody_step:
  assumes "whileBody M route r0 rest = (route', rem')"
  shows "\<exists>n. route' = route @ [n] \<and> rem' = remove1 n (r0 # rest) \<and> n \<in> set (r0 # rest)"
proof -
  let ?n = "scanNearest M (last route) rest r0 (getDistance M (last route) r0)"
  have mem: "?n \<in> set (r0 # rest)"
    by (rule scanNearest_in_pool)
  have "route' = route @ [?n]"
    using assms by (simp add: whileBody_def Let_def)
  moreover have "rem' = remove1 ?n (r0 # rest)"
    using assms mem splice1_indexOf [of ?n "r0 # rest"]
    by (simp add: whileBody_def Let_def del: indexOf.simps remove1.simps)
  ultimately show ?thesis
    using mem by blast
qed

lemma routeLoop_extends:
  "\<exists>t. routeLoop M route pool = route @ t \<and> mset t = mset pool"
proof (induction M route pool rule: routeLoop.induct)
  case (1 M route)
  then show ?case by simp
next
  case (2 M route r0 rest)
  obtain route' rem' where wb: "whileBody M route r0 rest = (route', rem')"
    by (cases "whileBody M route r0 rest")
  from whileBody_step [OF wb] obtain n where
    n: "route' = route @ [n]" "rem' = remove1 n (r0 # rest)" "n \<in> set (r0 # rest)"
    by blast
  from "2.IH" [OF wb [symmetric]] obtain t where
    t: "routeLoop M route' rem' = route' @ t" "mset t = mset rem'"
    by auto
  have "routeLoop M route (r0 # rest) = route @ (n # t)"
    using wb t(1) n(1) by simp
  moreover have "mset (n # t) = mset (r0 # rest)"
    using t(2) n(2,3) by (simp del: remove1.simps)
  ultimately show ?case by blast
qed

lemma find_start:
  "startId \<in> id' ` set ms \<Longrightarrow>
   \<exists>st. find (\<lambda>m. id' m = startId) ms = Some st \<and> st \<in> set ms \<and> id' st = startId"
  by (induction ms) auto

lemma filter_rest_mset:
  "distinct (map id' ms) \<Longrightarrow> find (\<lambda>m. id' m = startId) ms = Some st \<Longrightarrow>
   add_mset st (mset (filter (\<lambda>m. id' m \<noteq> startId) ms)) = mset ms"
proof (induction ms)
  case Nil
  then show ?case by simp
next
  case (Cons x xs)
  show ?case
  proof (cases "id' x = startId")
    case True
    have "id' x \<notin> id' ` set xs"
      using Cons.prems(1) by simp
    then have "\<forall>m\<in>set xs. id' m \<noteq> startId"
      using True by (metis imageI)
    then have "filter (\<lambda>m. id' m \<noteq> startId) xs = xs"
      by (simp add: filter_id_conv)
    with True Cons.prems(2) show ?thesis by simp
  next
    case False
    with Cons show ?thesis by simp
  qed
qed

lemma dist_A_B: "getDistance exactMath exampleA exampleB = Finite (6371 * pi)"
  by (simp add: getDistance_def haversineA_def toRad_def atan2_exact_def exactMath_def
      example_defs)

lemma dist_A_C: "getDistance exactMath exampleA exampleC = Finite (6371 * pi / 2)"
  by (simp add: getDistance_def haversineA_def toRad_def atan2_exact_def exactMath_def
      example_defs Let_def sin_45 real_sqrt_divide arctan_one)

lemma example_distinct:
  "exampleA \<noteq> exampleB" "exampleA \<noteq> exampleC" "exampleB \<noteq> exampleC"
  "exampleB \<noteq> exampleA" "exampleC \<noteq> exampleA" "exampleC \<noteq> exampleB"
  by (simp_all add: example_defs)

lemma example_ids:
  "id' exampleA = ''marker-0''" "id' exampleB = ''marker-1''" "id' exampleC = ''marker-2''"
  by (simp_all add: example_defs)

lemma example_route:
  "calculateOptimizedRoute exactMath [exampleA, exampleB, exampleC] ''marker-0''
     = Some [exampleA, exampleC, exampleB]"
  by (simp add: calculateOptimizedRoute_def whileBody_def example_ids example_distinct
      dist_A_B dist_A_C Let_def splice1_def)

text \<open>
  At the three markers around the antipode, a \<^verbatim>\<open>NaN\<close> distance from the start to the
  antipode fixes the route: the antipode stays the nearest marker of the first scan.
\<close>

lemma NaN_distance_route:
  assumes "getDistance M startMarker antipodeMarker = NaN"
  shows "calculateOptimizedRoute M [startMarker, antipodeMarker, neighbourMarker] ''marker-0''
     = Some [startMarker, antipodeMarker, neighbourMarker]"
proof -
  have ids: "id' startMarker = ''marker-0''" "id' antipodeMarker = ''marker-1''"
    "id' neighbourMarker = ''marker-2''"
    by (simp_all add: antipode_defs)
  show ?thesis
    using assms by (simp add: calculateOptimizedRoute_def whileBody_def ids Let_def splice1_def)
qed

section \<open>Claims about the route optimizer\<close>

text \<open>
  Claim C2. For a non-empty input whose ids are pairwise distinct and a start id that is
  the id of a member, \<^verbatim>\<open>calculateOptimizedRoute\<close> returns a route that is a permutation
  of the input (same markers, same ids, no duplicate id, same length) and whose first
  element is the marker of the input that has the start id. This holds whatever the
  arithmetic computes.
\<close>

theorem route_is_permutation:
  assumes "ms \<noteq> []" and "distinct (map id' ms)" and "startId \<in> id' ` set ms"
  shows "\<exists>route. calculateOptimizedRoute M ms startId = Some route \<and>
    mset route = mset ms \<and>
    mset (map id' route) = mset (map id' ms) \<and>
    distinct (map id' route) \<and>
    length route = length ms \<and>
    find (\<lambda>m. id' m = startId) ms = Some (hd route) \<and>
    id' (hd route) = startId"
proof -
  from find_start [OF assms(3)] obtain st where
    st: "find (\<lambda>m. id' m = startId) ms = Some st" "id' st = startId"
    by blast
  let ?pool = "filter (\<lambda>m. id' m \<noteq> startId) ms"
  obtain t where t: "routeLoop M [st] ?pool = [st] @ t" "mset t = mset ?pool"
    using routeLoop_extends [of M "[st]" ?pool] by blast
  have res: "calculateOptimizedRoute M ms startId = Some (st # t)"
    using st(1) t(1) by (simp add: calculateOptimizedRoute_def)
  have perm: "mset (st # t) = mset ms"
    using t(2) filter_rest_mset [OF assms(2) st(1)] by simp
  then have ids: "mset (map id' (st # t)) = mset (map id' ms)"
    by (metis mset_map)
  have "distinct (map id' (st # t))"
    using ids assms(2) by (metis mset_eq_imp_distinct_iff)
  moreover have "length (st # t) = length ms"
    using perm by (metis size_mset)
  ultimately show ?thesis
    using res perm ids st by simp
qed

theorem route_is_permutation_witness:
  "[exampleA, exampleB, exampleC] \<noteq> [] \<and>
   distinct (map id' [exampleA, exampleB, exampleC]) \<and>
   ''marker-0'' \<in> id' ` set [exampleA, exampleB, exampleC] \<and>
   calculateOptimizedRoute exactMath [exampleA, exampleB, exampleC] ''marker-0''
     = Some [exampleA, exampleC, exampleB] \<and>
   mset [exampleA, exampleC, exampleB] = mset [exampleA, exampleB, exampleC] \<and>
   hd [exampleA, exampleC, exampleB] = exampleA"
  using route_is_permutation [of "[exampleA, exampleB, exampleC]" "''marker-0''" exactMath]
  by (simp add: example_route example_ids)


section \<open>Claims about the marker store\<close>

lemma routedState_reached:
  "handleOptimizeRoute M (Some ''marker-2'')
     (handleMarkersSelected [exampleB, exampleC]
        (handleDataLoaded [exampleA, exampleB, exampleC] initialState)) = routedState"
  by (simp add: handleOptimizeRoute_def handleMarkersSelected_def handleDataLoaded_def
      initialState_def routedState_def truthy_def calculateOptimizedRoute_def whileBody_def
      example_ids example_distinct Let_def splice1_def)

lemma taggedState_reached:
  "handleMarkersSelected [exampleA\<lparr>icon := Some ''pin.png''\<rparr>]
     (handleDataLoaded [exampleA\<lparr>icon := Some ''pin.png''\<rparr>] initialState) = taggedState"
  by (simp add: handleMarkersSelected_def handleDataLoaded_def initialState_def taggedState_def)

lemma calculateOptimizedRoute_None:
  "calculateOptimizedRoute M ms startId = None \<longleftrightarrow> startId \<notin> id' ` set ms"
proof (cases "find (\<lambda>m. id' m = startId) ms")
  case None
  then have "startId \<notin> id' ` set ms"
    by (auto simp: find_None_iff)
  with None show ?thesis
    by (simp add: calculateOptimizedRoute_def)
next
  case (Some st)
  then have "st \<in> set ms" "id' st = startId"
    by (auto simp: find_Some_iff)
  with Some show ?thesis
    by (auto simp: calculateOptimizedRoute_def)
qed

lemma moveTo_id [simp]: "id' (moveTo i lat lng m) = id' m"
  by (simp add: moveTo_def)

lemma moveTo_idem [simp]: "moveTo i lat lng (moveTo i lat lng m) = moveTo i lat lng m"
  by (simp add: moveTo_def)

lemma moveTo_comp [simp]: "moveTo i lat lng \<circ> moveTo i lat lng = moveTo i lat lng"
  by (rule ext) simp

lemma moveTo_position:
  "id' m = i \<Longrightarrow> latitude (moveTo i lat lng m) = lat \<and> longitude (moveTo i lat lng m) = lng"
  by (simp add: moveTo_def)

lemma moveTo_other: "id' m \<noteq> i \<Longrightarrow> moveTo i lat lng m = m"
  by (simp add: moveTo_def)

lemma list_ex_moveTo [simp]:
  "list_ex (\<lambda>m. id' m = i) (map (moveTo j lat lng) ms) = list_ex (\<lambda>m. id' m = i) ms"
  by (simp add: list_ex_iff)

lemma handleDataLoaded_frame:
  "markers (handleDataLoaded newMarkers s) = newMarkers \<and>
   selectedMarkers (handleDataLoaded newMarkers s) = selectedMarkers s \<and>
   optimizedRoute (handleDataLoaded newMarkers s) = optimizedRoute s \<and>
   startMarkerId (handleDataLoaded newMarkers s) = startMarkerId s \<and>
   isDrawing (handleDataLoaded newMarkers s) = isDrawing s"
  by (simp add: handleDataLoaded_def)

text \<open>
  Claim C1. \<^verbatim>\<open>handleDataLoaded\<close> replaces the marker collection but assigns no other
  cell: in the routed state, importing a one-marker file leaves the selection, the route
  and the start id as they were, where the claim has them cleared. \<^verbatim>\<open>handleDelete\<close> and
  \<^verbatim>\<open>handleToggleDrawing\<close> do reset the three cells.
\<close>

theorem handleDataLoaded_keeps_selection:
  "markers (handleDataLoaded [exampleA] routedState) = [exampleA] \<and>
   selectedMarkers (handleDataLoaded [exampleA] routedState) = [exampleB, exampleC] \<and>
   optimizedRoute (handleDataLoaded [exampleA] routedState) = Some [exampleC, exampleB] \<and>
   startMarkerId (handleDataLoaded [exampleA] routedState) = Some ''marker-2''"
  by (simp add: handleDataLoaded_def routedState_def)

text \<open>
  Claim C4. When the start id is the id of no member of the input, the optimizer returns
  \<open>None\<close> (JavaScript \<^verbatim>\<open>null\<close>; the model has no error value because the code has no
  \<^verbatim>\<open>throw\<close>), and both callers store that as the route: \<^verbatim>\<open>handleOptimizeRoute\<close>, and
  \<^verbatim>\<open>handleMarkerMove\<close> when it recomputes. The route is cleared, whatever it was before.
\<close>

theorem missing_start_no_route:
  assumes "startId \<notin> id' ` set ms"
  shows "calculateOptimizedRoute M ms startId = None \<and>
    optimizedRoute (handleOptimizeRoute M (Some startId) (s\<lparr>selectedMarkers := ms\<rparr>)) = None \<and>
    (truthy (Some startId) \<and> i \<in> id' ` set ms \<longrightarrow>
       optimizedRoute
         (handleMarkerMove M i lat lng (s\<lparr>selectedMarkers := ms, startMarkerId := Some startId\<rparr>))
         = None)"
proof -
  have none: "calculateOptimizedRoute M ms startId = None"
    using assms by (simp add: calculateOptimizedRoute_None)
  then have "optimizedRoute (handleOptimizeRoute M (Some startId) (s\<lparr>selectedMarkers := ms\<rparr>))
      = None"
    by (simp add: handleOptimizeRoute_def Let_def)
  moreover have "calculateOptimizedRoute M (map (moveTo i lat lng) ms) startId = None"
    using assms by (simp add: calculateOptimizedRoute_None image_image)
  then have "truthy (Some startId) \<and> i \<in> id' ` set ms \<longrightarrow>
       optimizedRoute
         (handleMarkerMove M i lat lng (s\<lparr>selectedMarkers := ms, startMarkerId := Some startId\<rparr>))
         = None"
    by (auto simp: handleMarkerMove_def Let_def list_ex_iff)
  ultimately show ?thesis
    using none by blast
qed

theorem missing_start_no_route_witness:
  "''marker-0'' \<notin> id' ` set [exampleB, exampleC] \<and>
   calculateOptimizedRoute exactMath [exampleB, exampleC] ''marker-0'' = None \<and>
   optimizedRoute (handleOptimizeRoute exactMath (Some ''marker-0'') routedState) = None"
proof -
  have h: "''marker-0'' \<notin> id' ` set [exampleB, exampleC]"
    by (simp add: example_ids)
  have "routedState\<lparr>selectedMarkers := [exampleB, exampleC]\<rparr> = routedState"
    by (simp add: routedState_def)
  with missing_start_no_route [OF h, where M = exactMath and s = routedState] h show ?thesis
    by simp
qed

text \<open>
  Claim C5. After \<^verbatim>\<open>handleDelete\<close> the collection is the old one without the markers
  whose id was selected: none of those is left, every other marker is kept, and the
  selection, the route and the start id are cleared.
\<close>

theorem delete_selected:
  "markers (handleDelete s)
     = filter (\<lambda>m. id' m \<notin> id' ` set (selectedMarkers s)) (markers s) \<and>
   (\<forall>m\<in>set (markers (handleDelete s)). id' m \<notin> id' ` set (selectedMarkers s)) \<and>
   (\<forall>m\<in>set (markers s).
      id' m \<notin> id' ` set (selectedMarkers s) \<longrightarrow> m \<in> set (markers (handleDelete s))) \<and>
   selectedMarkers (handleDelete s) = [] \<and>
   optimizedRoute (handleDelete s) = None \<and>
   startMarkerId (handleDelete s) = None"
  by (simp add: handleDelete_def Let_def)

theorem delete_selected_witness:
  "markers (handleDelete routedState) = [exampleA] \<and>
   selectedMarkers (handleDelete routedState) = [] \<and>
   optimizedRoute (handleDelete routedState) = None \<and>
   startMarkerId (handleDelete routedState) = None"
  using delete_selected [of routedState]
  by (simp add: routedState_def example_ids)

text \<open>
  Claim C6. When a start id is designated (the test \<^verbatim>\<open>if (startMarkerId)\<close> succeeds) and
  the moved id is the id of a selected marker, \<^verbatim>\<open>handleMarkerMove\<close> writes the new position
  into every marker of that id in the collection and in the selection, leaves the other
  markers as they were, and sets the route to the optimizer's result on the updated
  selection from the same start id.
\<close>

theorem move_recomputes_route:
  assumes "startMarkerId s = Some startId" and "truthy (startMarkerId s)"
    and "i \<in> id' ` set (selectedMarkers s)"
  shows "markers (handleMarkerMove M i lat lng s) = map (moveTo i lat lng) (markers s) \<and>
    selectedMarkers (handleMarkerMove M i lat lng s)
      = map (moveTo i lat lng) (selectedMarkers s) \<and>
    (\<forall>m\<in>set (markers (handleMarkerMove M i lat lng s))
          \<union> set (selectedMarkers (handleMarkerMove M i lat lng s)).
       id' m = i \<longrightarrow> latitude m = lat \<and> longitude m = lng) \<and>
    (\<forall>k<length (markers s).
       id' (markers s ! k) \<noteq> i \<longrightarrow>
         markers (handleMarkerMove M i lat lng s) ! k = markers s ! k) \<and>
    (\<forall>k<length (selectedMarkers s).
       id' (selectedMarkers s ! k) \<noteq> i \<longrightarrow>
         selectedMarkers (handleMarkerMove M i lat lng s) ! k = selectedMarkers s ! k) \<and>
    optimizedRoute (handleMarkerMove M i lat lng s)
      = calculateOptimizedRoute M (selectedMarkers (handleMarkerMove M i lat lng s)) startId \<and>
    startMarkerId (handleMarkerMove M i lat lng s) = Some startId"
proof -
  have sel: "list_ex (\<lambda>m. id' m = i) (selectedMarkers s)"
    using assms(3) by (auto simp: list_ex_iff)
  have upd: "handleMarkerMove M i lat lng s =
      s\<lparr>markers := map (moveTo i lat lng) (markers s),
        selectedMarkers := map (moveTo i lat lng) (selectedMarkers s),
        optimizedRoute :=
          calculateOptimizedRoute M (map (moveTo i lat lng) (selectedMarkers s)) startId\<rparr>"
    using assms(1,2) sel by (simp add: handleMarkerMove_def Let_def)
  have c1: "markers (handleMarkerMove M i lat lng s) = map (moveTo i lat lng) (markers s)"
    and c2: "selectedMarkers (handleMarkerMove M i lat lng s)
      = map (moveTo i lat lng) (selectedMarkers s)"
    and c6: "optimizedRoute (handleMarkerMove M i lat lng s)
      = calculateOptimizedRoute M (selectedMarkers (handleMarkerMove M i lat lng s)) startId"
    and c7: "startMarkerId (handleMarkerMove M i lat lng s) = Some startId"
    by (simp_all add: upd assms(1))
  have c3: "\<forall>m\<in>set (markers (handleMarkerMove M i lat lng s))
          \<union> set (selectedMarkers (handleMarkerMove M i lat lng s)).
       id' m = i \<longrightarrow> latitude m = lat \<and> longitude m = lng"
  proof (intro ballI impI)
    fix m
    assume m: "m \<in> set (markers (handleMarkerMove M i lat lng s))
        \<union> set (selectedMarkers (handleMarkerMove M i lat lng s))"
      and mi: "id' m = i"
    from m obtain x where x: "m = moveTo i lat lng x"
      unfolding c1 c2 by (metis Un_iff imageE set_map)
    with mi have "id' x = i"
      by simp
    then show "latitude m = lat \<and> longitude m = lng"
      unfolding x by (rule moveTo_position)
  qed
  have c4: "\<forall>k<length (markers s).
       id' (markers s ! k) \<noteq> i \<longrightarrow>
         markers (handleMarkerMove M i lat lng s) ! k = markers s ! k"
    unfolding c1 by (simp add: moveTo_def)
  have c5: "\<forall>k<length (selectedMarkers s).
       id' (selectedMarkers s ! k) \<noteq> i \<longrightarrow>
         selectedMarkers (handleMarkerMove M i lat lng s) ! k = selectedMarkers s ! k"
    unfolding c2 by (simp add: moveTo_def)
  from c1 c2 c3 c4 c5 c6 c7 show ?thesis
    by blast
qed

theorem move_recomputes_route_witness:
  "startMarkerId routedState = Some ''marker-2'' \<and> truthy (startMarkerId routedState) \<and>
   ''marker-1'' \<in> id' ` set (selectedMarkers routedState) \<and>
   markers (handleMarkerMove exactMath ''marker-1'' (Finite 0) (Finite 0) routedState)
     = [exampleA, exampleB\<lparr>latitude := Finite 0, longitude := Finite 0\<rparr>, exampleC] \<and>
   selectedMarkers (handleMarkerMove exactMath ''marker-1'' (Finite 0) (Finite 0) routedState)
     = [exampleB\<lparr>latitude := Finite 0, longitude := Finite 0\<rparr>, exampleC] \<and>
   optimizedRoute (handleMarkerMove exactMath ''marker-1'' (Finite 0) (Finite 0) routedState)
     = Some [exampleC, exampleB\<lparr>latitude := Finite 0, longitude := Finite 0\<rparr>]"
proof -
  have h1: "startMarkerId routedState = Some ''marker-2''"
    and h2: "truthy (startMarkerId routedState)"
    and h3: "''marker-1'' \<in> id' ` set (selectedMarkers routedState)"
    by (simp_all add: routedState_def truthy_def example_ids)
  from move_recomputes_route [OF h1 h2 h3, where M = exactMath and lat = "Finite 0"
      and lng = "Finite 0"] h1 h2 h3 show ?thesis
    by (simp add: routedState_def moveTo_def example_ids example_defs
        calculateOptimizedRoute_def whileBody_def splice1_def Let_def)
qed

text \<open>
  Claim C7. Moving a marker twice to the same position gives the same state (collection,
  selection, route and the rest) as moving it once.
\<close>

theorem move_idempotent:
  "handleMarkerMove M i lat lng (handleMarkerMove M i lat lng s) = handleMarkerMove M i lat lng s"
proof (cases "list_ex (\<lambda>m. id' m = i) (selectedMarkers s)")
  case True
  then show ?thesis
    by (cases "startMarkerId s") (simp_all add: handleMarkerMove_def Let_def)
next
  case False
  then show ?thesis
    by (simp add: handleMarkerMove_def Let_def)
qed

theorem move_idempotent_witness:
  "handleMarkerMove exactMath ''marker-1'' (Finite 0) (Finite 0)
     (handleMarkerMove exactMath ''marker-1'' (Finite 0) (Finite 0) routedState)
     = handleMarkerMove exactMath ''marker-1'' (Finite 0) (Finite 0) routedState \<and>
   selectedMarkers (handleMarkerMove exactMath ''marker-1'' (Finite 0) (Finite 0) routedState)
     = [exampleB\<lparr>latitude := Finite 0, longitude := Finite 0\<rparr>, exampleC]"
  using move_idempotent [of exactMath "''marker-1''" "Finite 0" "Finite 0" routedState]
  by (simp add: handleMarkerMove_def routedState_def moveTo_def example_ids truthy_def
      Let_def)

text \<open>
  Claim C8. \<^verbatim>\<open>handleUpdateIcons\<close> keeps the collection's length and order; a marker whose
  id is selected gets the icon and is otherwise unchanged, a marker whose id is not
  selected is unchanged altogether.
\<close>

theorem tag_icon_frame:
  "length (markers (handleUpdateIcons iconUrl s)) = length (markers s) \<and>
   (\<forall>k<length (markers s).
      (id' (markers s ! k) \<in> id' ` set (selectedMarkers s) \<longrightarrow>
         markers (handleUpdateIcons iconUrl s) ! k = (markers s ! k)\<lparr>icon := Some iconUrl\<rparr>) \<and>
      (id' (markers s ! k) \<notin> id' ` set (selectedMarkers s) \<longrightarrow>
         markers (handleUpdateIcons iconUrl s) ! k = markers s ! k))"
  by (simp add: handleUpdateIcons_def Let_def)

theorem tag_icon_frame_witness:
  "markers (handleUpdateIcons ''pin.png'' routedState)
     = [exampleA, exampleB\<lparr>icon := Some ''pin.png''\<rparr>, exampleC\<lparr>icon := Some ''pin.png''\<rparr>] \<and>
   markers (handleUpdateIcons ''pin.png'' routedState) ! 0 = markers routedState ! 0"
  using tag_icon_frame [of "''pin.png''" routedState]
  by (simp add: handleUpdateIcons_def routedState_def example_ids Let_def)

text \<open>
  Claim C9, as stated, fails: a selected marker that already carries the icon has the same
  icon in the selection and in the collection after tagging.
\<close>

theorem tag_icon_selection_counterexample:
  "selectedMarkers (handleUpdateIcons ''pin.png'' taggedState) ! 0 \<in> set (selectedMarkers taggedState) \<and>
   id' (selectedMarkers (handleUpdateIcons ''pin.png'' taggedState) ! 0)
     = id' (markers (handleUpdateIcons ''pin.png'' taggedState) ! 0) \<and>
   \<not> icon (selectedMarkers (handleUpdateIcons ''pin.png'' taggedState) ! 0)
     \<noteq> icon (markers (handleUpdateIcons ''pin.png'' taggedState) ! 0)"
  by (simp add: handleUpdateIcons_def taggedState_def Let_def)

text \<open>
  Claim C9, amended. \<^verbatim>\<open>handleUpdateIcons\<close> changes the collection only: selection, route,
  start id and drawing flag are as before. For a selected marker and a collection marker of
  the same id, the collection's icon is the new one, and the selection's copy differs from
  it exactly when that copy did not already hold the new icon.
\<close>

theorem tag_icon_selection_stale:
  "selectedMarkers (handleUpdateIcons iconUrl s) = selectedMarkers s \<and>
   optimizedRoute (handleUpdateIcons iconUrl s) = optimizedRoute s \<and>
   startMarkerId (handleUpdateIcons iconUrl s) = startMarkerId s \<and>
   isDrawing (handleUpdateIcons iconUrl s) = isDrawing s \<and>
   (\<forall>m\<in>set (selectedMarkers (handleUpdateIcons iconUrl s)).
      \<forall>c\<in>set (markers (handleUpdateIcons iconUrl s)).
        id' c = id' m \<longrightarrow>
          icon c = Some iconUrl \<and> (icon m \<noteq> icon c \<longleftrightarrow> icon m \<noteq> Some iconUrl))"
  by (auto simp: handleUpdateIcons_def Let_def)

theorem tag_icon_selection_stale_witness:
  "selectedMarkers (handleUpdateIcons ''pin.png'' routedState) = [exampleB, exampleC] \<and>
   exampleB\<lparr>icon := Some ''pin.png''\<rparr> \<in> set (markers (handleUpdateIcons ''pin.png'' routedState)) \<and>
   icon exampleB \<noteq> icon (exampleB\<lparr>icon := Some ''pin.png''\<rparr>)"
proof -
  have sel: "selectedMarkers (handleUpdateIcons ''pin.png'' routedState) = [exampleB, exampleC]"
    using tag_icon_selection_stale [of "''pin.png''" routedState]
    by (simp add: routedState_def)
  have can: "exampleB\<lparr>icon := Some ''pin.png''\<rparr>
      \<in> set (markers (handleUpdateIcons ''pin.png'' routedState))"
    by (simp add: handleUpdateIcons_def routedState_def example_ids Let_def)
  have "icon exampleB \<noteq> Some ''pin.png''"
    by (simp add: example_defs)
  with tag_icon_selection_stale [of "''pin.png''" routedState] sel can
  have "icon exampleB \<noteq> icon (exampleB\<lparr>icon := Some ''pin.png''\<rparr>)"
    by simp
  with sel can show ?thesis by simp
qed

text \<open>
  Claim C10, as stated, fails: after an import that left the selection in place, the id
  \<^verbatim>\<open>marker-1\<close> is in the selection but not in the collection, and moving it changes the
  selection and the route.
\<close>

theorem move_unknown_id_counterexample:
  "''marker-1'' \<notin> id' ` set (markers staleState) \<and>
   selectedMarkers (handleMarkerMove exactMath ''marker-1'' (Finite 10) (Finite 20) staleState)
     \<noteq> selectedMarkers staleState \<and>
   optimizedRoute (handleMarkerMove exactMath ''marker-1'' (Finite 10) (Finite 20) staleState)
     \<noteq> optimizedRoute staleState"
  by (simp add: staleState_def handleDataLoaded_def routedState_def handleMarkerMove_def
      moveTo_def truthy_def example_ids example_distinct Let_def calculateOptimizedRoute_def
      whileBody_def splice1_def example_defs)

text \<open>
  Claim C10, amended. For an id of no marker in the collection, \<^verbatim>\<open>handleMarkerMove\<close>
  leaves the collection, the start id and the drawing flag unchanged; when the id is the id
  of no selected marker either, the whole state is unchanged.
\<close>

theorem move_unknown_id:
  assumes "i \<notin> id' ` set (markers s)"
  shows "markers (handleMarkerMove M i lat lng s) = markers s \<and>
    startMarkerId (handleMarkerMove M i lat lng s) = startMarkerId s \<and>
    isDrawing (handleMarkerMove M i lat lng s) = isDrawing s \<and>
    (i \<notin> id' ` set (selectedMarkers s) \<longrightarrow> handleMarkerMove M i lat lng s = s)"
proof -
  have "map (moveTo i lat lng) (markers s) = markers s"
    by (rule map_idI) (use assms in \<open>auto simp: moveTo_def\<close>)
  moreover have "i \<notin> id' ` set (selectedMarkers s) \<Longrightarrow>
      \<not> list_ex (\<lambda>m. id' m = i) (selectedMarkers s)"
    by (auto simp: list_ex_iff)
  ultimately show ?thesis
    by (auto simp: handleMarkerMove_def Let_def split: option.splits)
qed

theorem move_unknown_id_witness:
  "''marker-9'' \<notin> id' ` set (markers routedState) \<and>
   ''marker-9'' \<notin> id' ` set (selectedMarkers routedState) \<and>
   handleMarkerMove exactMath ''marker-9'' (Finite 10) (Finite 20) routedState = routedState"
proof -
  have h1: "''marker-9'' \<notin> id' ` set (markers routedState)"
    and h2: "''marker-9'' \<notin> id' ` set (selectedMarkers routedState)"
    by (simp_all add: routedState_def example_ids)
  from move_unknown_id [OF h1, where M = exactMath and lat = "Finite 10"
      and lng = "Finite 20"] h1 h2 show ?thesis
    by simp
qed

end
